theory Spec2Isabelle
  imports Complex_Main
begin

section \<open>Particle swarm optimisation of the Michalewicz function\<close>

text \<open>
  A shallow embedding of \<^verbatim>\<open>PSO-michalewicz.py\<close>. Python floats are modelled as
  HOL reals and numpy arrays as lists of reals; rounding is left out. Three places where
  float arithmetic changes what a call gives are part of the model: \<^verbatim>\<open>np.mean\<close> of
  an empty list is not a number (\<open>None\<close>); in \<^verbatim>\<open>np.linalg.norm\<close> a square too
  small for a float is 0; and where a particle is initialised, a range too large for a
  float makes \<^verbatim>\<open>np.random.uniform\<close> raise and a square too large for a float
  makes \<^verbatim>\<open>math.sin\<close> raise. The module-level constants are read from a record, so
  that a property can speak about other settings than the ones written in the file.
  Every call of \<^verbatim>\<open>np.random.uniform\<close> takes its unit samples from an explicit
  argument. Printing, plotting and timing are left out.
\<close>

subsection \<open>Errors and the range of floats\<close>

datatype error = ValueError | IndexError | OverflowError

text \<open>
  A float operation whose exact result is \<open>y\<close> gives infinity when \<open>\<bar>y\<bar>\<close> reaches
  \<open>2 ^ 1024 - 2 ^ 970\<close>, half a unit in the last place above the largest float.
\<close>

definition float_limit :: real where
  "float_limit = 2 ^ 1024 - 2 ^ 970"

definition float_overflow :: "real \<Rightarrow> bool" where
  "float_overflow y \<longleftrightarrow> float_limit \<le> \<bar>y\<bar>"

text \<open>
  The square of a float, as a float: it is 0 when the exact square is at most
  \<open>1 / 2 ^ 1075\<close>, half the least positive float.
\<close>

definition sq_underflow :: real where
  "sq_underflow = 1 / 2 ^ 1075"

definition float_sq :: "real \<Rightarrow> real" where
  "float_sq x = (if x\<^sup>2 \<le> sq_underflow then 0 else x\<^sup>2)"

subsection \<open>The objective function\<close>

text \<open>One summand of the loop of \<^verbatim>\<open>michalewicz\<close>, for the index \<open>i\<close> (from 0).\<close>

definition michalewicz_term :: "nat \<Rightarrow> nat \<Rightarrow> real \<Rightarrow> real" where
  "michalewicz_term m i xi =
     sin xi * (sin ((real (i + 1) * xi\<^sup>2) / pi)) ^ (2 * m)"

text \<open>The loop \<^verbatim>\<open>for i in range(n): total += ...\<close>, from index \<open>i\<close> on; \<open>tot\<close> is the
  running \<^verbatim>\<open>total\<close>.\<close>

fun michalewicz_loop :: "nat \<Rightarrow> nat \<Rightarrow> real list \<Rightarrow> real \<Rightarrow> real" where
  "michalewicz_loop m i [] tot = tot"
| "michalewicz_loop m i (xi # xs) tot =
     michalewicz_loop m (Suc i) xs (tot + michalewicz_term m i xi)"

definition michalewicz :: "real list \<Rightarrow> real" where
  "michalewicz x = - michalewicz_loop 10 0 x 0"

subsection \<open>Configuration constants\<close>

record config =
  NUM_PARTICLES :: int
  NUM_DIMENSIONS :: int
  MAX_ITERATIONS :: int
  INERTIA_WEIGHT :: real
  COGNITIVE_CONST :: real
  SOCIAL_CONST :: real
  X_MIN :: real
  X_MAX :: real
  GLOBAL_MINIMUM :: real
  TOLERANCE :: real

text \<open>The values the source file sets.\<close>

definition default_config :: config where
  "default_config =
     \<lparr> NUM_PARTICLES = 100, NUM_DIMENSIONS = 5, MAX_ITERATIONS = 1000,
       INERTIA_WEIGHT = 1 / 10, COGNITIVE_CONST = 2, SOCIAL_CONST = 2,
       X_MIN = 0, X_MAX = pi,
       GLOBAL_MINIMUM = - (4687658 / 1000000), TOLERANCE = 1 / 1000 \<rparr>"

text \<open>
  Where \<^verbatim>\<open>michalewicz\<close> raises: \<^verbatim>\<open>math.sin\<close> of an infinite argument is a
  \<^verbatim>\<open>ValueError\<close>, and the argument \<^verbatim>\<open>((i + 1) * xi ** 2) / math.pi\<close> is infinite
  when the square or its product with \<open>i + 1\<close> overflows.
\<close>

definition sin_raises :: "nat \<Rightarrow> real \<Rightarrow> bool" where
  "sin_raises i xi \<longleftrightarrow> float_overflow (xi\<^sup>2) \<or> float_overflow (real (i + 1) * xi\<^sup>2)"

fun michalewicz_raises :: "nat \<Rightarrow> real list \<Rightarrow> bool" where
  "michalewicz_raises i [] = False"
| "michalewicz_raises i (xi # xs) = (sin_raises i xi \<or> michalewicz_raises (Suc i) xs)"

subsection \<open>numpy operations\<close>

text \<open>
  Element-wise arithmetic on arrays of one shape. All the arrays of a run have
  \<open>NUM_DIMENSIONS\<close> entries (the initialisation makes them so and the updates keep
  it, see \<open>particle_wf\<close> below), so numpy never meets two shapes here.
\<close>

definition vadd :: "real list \<Rightarrow> real list \<Rightarrow> real list" where
  "vadd a b = map2 (+) a b"

definition vsub :: "real list \<Rightarrow> real list \<Rightarrow> real list" where
  "vsub a b = map2 (-) a b"

definition vmul :: "real list \<Rightarrow> real list \<Rightarrow> real list" where
  "vmul a b = map2 (*) a b"

definition smul :: "real \<Rightarrow> real list \<Rightarrow> real list" where
  "smul c a = map ((*) c) a"

text \<open>\<^verbatim>\<open>np.zeros(n)\<close>.\<close>

definition np_zeros :: "nat \<Rightarrow> real list" where
  "np_zeros n = replicate n 0"

text \<open>\<^verbatim>\<open>np.clip(a, lo, hi)\<close> is \<^verbatim>\<open>minimum(maximum(a, lo), hi)\<close>.\<close>

definition np_clip :: "real list \<Rightarrow> real \<Rightarrow> real \<Rightarrow> real list" where
  "np_clip a lo hi = map (\<lambda>x. min (max x lo) hi) a"

text \<open>
  \<^verbatim>\<open>np.random.uniform(low, high, n)\<close>: \<open>n\<close> samples \<open>low + (high - low) * u\<close>,
  where the unit samples \<open>u\<close> (each in \<open>[0, 1)\<close>) are the argument \<open>u\<close>. numpy checks
  neither \<open>low \<le> high\<close> nor \<open>n \<noteq> 0\<close>; what it does refuse is written where the
  size is an integer of the configuration, in \<open>Particle_init\<close>.
\<close>

definition uniform :: "real \<Rightarrow> real \<Rightarrow> nat \<Rightarrow> (nat \<Rightarrow> real) \<Rightarrow> real list" where
  "uniform low high n u = map (\<lambda>i. low + (high - low) * u i) [0..<n]"

text \<open>\<^verbatim>\<open>np.mean\<close> of a list; of the empty list it is not a number (\<open>None\<close>).\<close>

definition np_mean :: "real list \<Rightarrow> real option" where
  "np_mean xs = (if xs = [] then None else Some (sum_list xs / real (length xs)))"

text \<open>
  \<^verbatim>\<open>np.linalg.norm\<close> of a vector \<open>v\<close> is \<^verbatim>\<open>sqrt(v.dot(v))\<close>: the squares are
  floats, so those that underflow count as 0.
\<close>

definition np_norm :: "real list \<Rightarrow> real" where
  "np_norm v = sqrt (sum_list (map float_sq v))"

text \<open>\<^verbatim>\<open>xs[-1]\<close>.\<close>

definition py_last :: "'a list \<Rightarrow> error + 'a" where
  "py_last xs = (if xs = [] then Inl IndexError else Inr (last xs))"

subsection \<open>Particle\<close>

record particle =
  position :: "real list"
  velocity :: "real list"
  best_position :: "real list"
  best_value :: real

text \<open>
  \<^verbatim>\<open>Particle.__init__\<close>. There is no check of the configuration; what can fail
  are the calls themselves. \<^verbatim>\<open>np.random.uniform\<close> raises \<^verbatim>\<open>OverflowError\<close> when
  \<^verbatim>\<open>high - low\<close> is not finite, and then \<^verbatim>\<open>ValueError\<close> for a negative size;
  \<^verbatim>\<open>michalewicz\<close> raises \<^verbatim>\<open>ValueError\<close> at a sampled position whose squares
  overflow.
\<close>

definition Particle_init :: "config \<Rightarrow> (nat \<Rightarrow> real) \<Rightarrow> error + particle" where
  "Particle_init cfg u =
     (if float_overflow (X_MAX cfg - X_MIN cfg) then Inl OverflowError
      else if NUM_DIMENSIONS cfg < 0 then Inl ValueError
      else
        let pos = uniform (X_MIN cfg) (X_MAX cfg) (nat (NUM_DIMENSIONS cfg)) u
        in if michalewicz_raises 0 pos then Inl ValueError
           else Inr \<lparr> position = pos,
                      velocity = np_zeros (nat (NUM_DIMENSIONS cfg)),
                      best_position = pos,
                      best_value = michalewicz pos \<rparr>)"

text \<open>
  \<^verbatim>\<open>Particle.update_velocity\<close>; \<open>u1\<close> and \<open>u2\<close> are the unit samples of its two
  calls of \<^verbatim>\<open>np.random.uniform(0, 1, NUM_DIMENSIONS)\<close>. (A particle exists only
  when \<open>NUM_DIMENSIONS\<close> is not negative.)
\<close>

definition update_velocity ::
  "config \<Rightarrow> particle \<Rightarrow> real list \<Rightarrow> (nat \<Rightarrow> real) \<Rightarrow> (nat \<Rightarrow> real) \<Rightarrow> particle" where
  "update_velocity cfg p global_best_position u1 u2 =
     (let r1 = uniform 0 1 (nat (NUM_DIMENSIONS cfg)) u1;
          r2 = uniform 0 1 (nat (NUM_DIMENSIONS cfg)) u2;
          cognitive_component =
            vmul (smul (COGNITIVE_CONST cfg) r1) (vsub (best_position p) (position p));
          social_component =
            vmul (smul (SOCIAL_CONST cfg) r2) (vsub global_best_position (position p))
      in p \<lparr> velocity :=
               vadd (vadd (smul (INERTIA_WEIGHT cfg) (velocity p)) cognitive_component)
                    social_component \<rparr>)"

text \<open>\<^verbatim>\<open>Particle.update_position\<close>.\<close>

definition update_position :: "config \<Rightarrow> particle \<Rightarrow> particle" where
  "update_position cfg p =
     (let pos = np_clip (vadd (position p) (velocity p)) (X_MIN cfg) (X_MAX cfg);
          val = michalewicz pos
      in if val < best_value p
         then p \<lparr> position := pos, best_position := pos, best_value := val \<rparr>
         else p \<lparr> position := pos \<rparr>)"

text \<open>The calls a particle can receive, and a sequence of them.\<close>

datatype particle_call =
    UpdateVelocity "real list" "nat \<Rightarrow> real" "nat \<Rightarrow> real"
  | UpdatePosition

fun apply_call :: "config \<Rightarrow> particle_call \<Rightarrow> particle \<Rightarrow> particle" where
  "apply_call cfg (UpdateVelocity g u1 u2) p = update_velocity cfg p g u1 u2"
| "apply_call cfg UpdatePosition p = update_position cfg p"

definition apply_calls :: "config \<Rightarrow> particle_call list \<Rightarrow> particle \<Rightarrow> particle" where
  "apply_calls cfg cs p = fold (apply_call cfg) cs p"

subsection \<open>The swarm and the optimisation loop\<close>

text \<open>
  \<^verbatim>\<open>[Particle() for _ in range(NUM_PARTICLES)]\<close>, for the indices \<open>ks\<close>; \<open>irnd k\<close>
  are the unit samples of particle \<open>k\<close>.
\<close>

fun init_particles :: "config \<Rightarrow> (nat \<Rightarrow> nat \<Rightarrow> real) \<Rightarrow> nat list \<Rightarrow> error + particle list" where
  "init_particles cfg irnd [] = Inr []"
| "init_particles cfg irnd (k # ks) =
     (case Particle_init cfg (irnd k) of
        Inl e \<Rightarrow> Inl e
      | Inr p \<Rightarrow>
          (case init_particles cfg irnd ks of
             Inl e \<Rightarrow> Inl e
           | Inr ps \<Rightarrow> Inr (p # ps)))"

text \<open>
  \<^verbatim>\<open>min(swarm, key=lambda p: p.best_value)\<close>: the first particle of the least key;
  \<^verbatim>\<open>ValueError\<close> on an empty swarm.
\<close>

fun min_scan :: "particle \<Rightarrow> particle list \<Rightarrow> particle" where
  "min_scan b [] = b"
| "min_scan b (q # qs) = min_scan (if best_value q < best_value b then q else b) qs"

definition min_by_best_value :: "particle list \<Rightarrow> error + particle" where
  "min_by_best_value sw = (case sw of [] \<Rightarrow> Inl ValueError | p # ps \<Rightarrow> Inr (min_scan p ps))"

text \<open>
  The body of \<^verbatim>\<open>for particle in swarm\<close>, and the loop itself from particle number
  \<open>k\<close> on; \<open>rnd k\<close> are the two sample functions of particle \<open>k\<close> in this iteration.
\<close>

definition update_particle ::
  "config \<Rightarrow> real list \<Rightarrow> (nat \<Rightarrow> real) \<times> (nat \<Rightarrow> real) \<Rightarrow> particle \<Rightarrow> particle" where
  "update_particle cfg gbp r p = update_position cfg (update_velocity cfg p gbp (fst r) (snd r))"

fun step_particles ::
  "config \<Rightarrow> real list \<Rightarrow> (nat \<Rightarrow> (nat \<Rightarrow> real) \<times> (nat \<Rightarrow> real)) \<Rightarrow> nat \<Rightarrow> particle list
     \<Rightarrow> particle list" where
  "step_particles cfg gbp rnd k [] = []"
| "step_particles cfg gbp rnd k (p # ps) =
     update_particle cfg gbp (rnd k) p # step_particles cfg gbp rnd (Suc k) ps"

text \<open>
  The same updates made in another order of the particles: \<open>order\<close> lists the indices
  in the order they are processed, each update written back to its place.
\<close>

definition step_particles_in_order ::
  "config \<Rightarrow> real list \<Rightarrow> (nat \<Rightarrow> (nat \<Rightarrow> real) \<times> (nat \<Rightarrow> real)) \<Rightarrow> nat list \<Rightarrow> particle list
     \<Rightarrow> particle list" where
  "step_particles_in_order cfg gbp rnd order sw =
     fold (\<lambda>k s. s[k := update_particle cfg gbp (rnd k) (s ! k)]) order sw"

text \<open>
  The diversity measure: the distances of \<^verbatim>\<open>positions[i]\<close> and \<^verbatim>\<open>positions[j]\<close>
  for \<open>i < j < n\<close>, in the order of the two nested loops, and their mean. An index
  beyond the array is an \<^verbatim>\<open>IndexError\<close>; the loops reach one when \<open>n \<ge> 2\<close> and the
  array is shorter than \<open>n\<close>.
\<close>

definition distances :: "nat \<Rightarrow> real list list \<Rightarrow> real list" where
  "distances n positions =
     concat (map (\<lambda>i. map (\<lambda>j. np_norm (vsub (positions ! i) (positions ! j))) [Suc i..<n])
                 [0..<n])"

definition diversity :: "nat \<Rightarrow> real list list \<Rightarrow> error + real option" where
  "diversity n positions =
     (if 2 \<le> n \<and> length positions < n then Inl IndexError
      else Inr (np_mean (distances n positions)))"

record swarm_state =
  swarm :: "particle list"
  global_best_position :: "real list"
  global_best_value :: real
  best_values_history :: "real list"
  avg_values_history :: "real option list"
  diversity_history :: "real option list"
  iterations :: nat
  global_min_found :: bool

text \<open>The initialisation of \<^verbatim>\<open>pso\<close>, up to the loop.\<close>

definition init_state :: "config \<Rightarrow> (nat \<Rightarrow> nat \<Rightarrow> real) \<Rightarrow> error + swarm_state" where
  "init_state cfg irnd =
     (case init_particles cfg irnd [0..<nat (NUM_PARTICLES cfg)] of
        Inl e \<Rightarrow> Inl e
      | Inr sw \<Rightarrow>
          (case min_by_best_value sw of
             Inl e \<Rightarrow> Inl e
           | Inr g \<Rightarrow>
               Inr \<lparr> swarm = sw,
                     global_best_position = best_position g,
                     global_best_value = best_value g,
                     best_values_history = [],
                     avg_values_history = [],
                     diversity_history = [],
                     iterations = 0,
                     global_min_found = False \<rparr>))"

text \<open>
  The first half of the loop body: every particle is updated against the global best
  position of the state. The global best itself is not touched yet.
\<close>

definition update_swarm ::
  "config \<Rightarrow> (nat \<Rightarrow> nat \<Rightarrow> (nat \<Rightarrow> real) \<times> (nat \<Rightarrow> real)) \<Rightarrow> swarm_state \<Rightarrow> swarm_state" where
  "update_swarm cfg rnd s =
     s \<lparr> swarm := step_particles cfg (global_best_position s) (rnd (iterations s)) 0 (swarm s) \<rparr>"

text \<open>
  The rest of the loop body: the global best is recomputed, the histories are
  extended, and the stop criterion either breaks the loop or the counter goes up.
\<close>

definition finish_iteration :: "config \<Rightarrow> swarm_state \<Rightarrow> error + swarm_state" where
  "finish_iteration cfg s =
     (case min_by_best_value (swarm s) of
        Inl e \<Rightarrow> Inl e
      | Inr c \<Rightarrow>
          (let s1 = (if best_value c < global_best_value s
                     then s \<lparr> global_best_position := best_position c,
                              global_best_value := best_value c \<rparr>
                     else s);
               s2 = s1 \<lparr> best_values_history := best_values_history s1 @ [global_best_value s1],
                         avg_values_history :=
                           avg_values_history s1 @ [np_mean (map best_value (swarm s1))] \<rparr>
           in case diversity (nat (NUM_PARTICLES cfg)) (map position (swarm s2)) of
                Inl e \<Rightarrow> Inl e
              | Inr d \<Rightarrow>
                  (let s3 = s2 \<lparr> diversity_history := diversity_history s2 @ [d] \<rparr>
                   in if \<bar>global_best_value s3 - GLOBAL_MINIMUM cfg\<bar> \<le> TOLERANCE cfg
                      then Inr (s3 \<lparr> global_min_found := True \<rparr>)
                      else Inr (s3 \<lparr> iterations := Suc (iterations s3) \<rparr>))))"

definition loop_body ::
  "config \<Rightarrow> (nat \<Rightarrow> nat \<Rightarrow> (nat \<Rightarrow> real) \<times> (nat \<Rightarrow> real)) \<Rightarrow> swarm_state
     \<Rightarrow> error + swarm_state" where
  "loop_body cfg rnd s = finish_iteration cfg (update_swarm cfg rnd s)"

text \<open>\<^verbatim>\<open>while iterations < MAX_ITERATIONS and not global_min_found\<close>.\<close>

function pso_loop ::
  "config \<Rightarrow> (nat \<Rightarrow> nat \<Rightarrow> (nat \<Rightarrow> real) \<times> (nat \<Rightarrow> real)) \<Rightarrow> swarm_state
     \<Rightarrow> error + swarm_state" where
  "pso_loop cfg rnd s =
     (if int (iterations s) < MAX_ITERATIONS cfg \<and> \<not> global_min_found s
      then (case loop_body cfg rnd s of
              Inl e \<Rightarrow> Inl e
            | Inr s' \<Rightarrow> pso_loop cfg rnd s')
      else Inr s)"
  by pat_completeness auto
termination
proof (relation "measure (\<lambda>(cfg, rnd, s).
          if global_min_found s then 0 else Suc (nat (MAX_ITERATIONS cfg - int (iterations s))))")
  show "wf (measure (\<lambda>(cfg, rnd, s).
          if global_min_found s then 0 else Suc (nat (MAX_ITERATIONS cfg - int (iterations s)))))"
    by simp
next
  fix cfg :: config and rnd s x2
  assume c: "int (iterations s) < MAX_ITERATIONS cfg \<and> \<not> global_min_found s"
    and b: "loop_body cfg rnd s = Inr x2"
  from b have "global_min_found x2 \<or> iterations x2 = Suc (iterations s)"
    by (auto simp: loop_body_def finish_iteration_def update_swarm_def Let_def
             split: sum.splits if_splits)
  with c show "((cfg, rnd, x2), (cfg, rnd, s)) \<in> measure (\<lambda>(cfg, rnd, s).
          if global_min_found s then 0 else Suc (nat (MAX_ITERATIONS cfg - int (iterations s))))"
    by auto
qed

text \<open>The record \<^verbatim>\<open>results\<close> that \<^verbatim>\<open>pso\<close> builds for the CSV file after the
  loop (without the run number, the time and the memory).\<close>

record results =
  r_num_particles :: int
  r_inertia_weight :: real
  r_cognitive_const :: real
  r_social_const :: real
  r_best_value :: real
  r_iterations :: int
  r_final_avg_value :: "real option"
  r_final_diversity :: "real option"

definition make_results :: "config \<Rightarrow> swarm_state \<Rightarrow> error + results" where
  "make_results cfg s =
     (case py_last (avg_values_history s) of
        Inl e \<Rightarrow> Inl e
      | Inr a \<Rightarrow>
          (case py_last (diversity_history s) of
             Inl e \<Rightarrow> Inl e
           | Inr d \<Rightarrow>
               Inr \<lparr> r_num_particles = NUM_PARTICLES cfg,
                     r_inertia_weight = INERTIA_WEIGHT cfg,
                     r_cognitive_const = COGNITIVE_CONST cfg,
                     r_social_const = SOCIAL_CONST cfg,
                     r_best_value = global_best_value s,
                     r_iterations = int (iterations s) + 1,
                     r_final_avg_value = a,
                     r_final_diversity = d \<rparr>))"

definition pso ::
  "config \<Rightarrow> (nat \<Rightarrow> nat \<Rightarrow> real) \<Rightarrow> (nat \<Rightarrow> nat \<Rightarrow> (nat \<Rightarrow> real) \<times> (nat \<Rightarrow> real))
     \<Rightarrow> error + results" where
  "pso cfg irnd rnd =
     (case init_state cfg irnd of
        Inl e \<Rightarrow> Inl e
      | Inr s0 \<Rightarrow>
          (case pso_loop cfg rnd s0 of
             Inl e \<Rightarrow> Inl e
           | Inr s \<Rightarrow> make_results cfg s))"

section \<open>Invariants and concrete inputs\<close>

subsection \<open>Invariants of the loop\<close>

text \<open>The personal best values of a swarm.\<close>

definition best_values :: "particle list \<Rightarrow> real set" where
  "best_values sw = best_value ` set sw"

text \<open>What holds of the swarm and the global best value between two runs of the loop body.\<close>

definition swarm_inv :: "config \<Rightarrow> swarm_state \<Rightarrow> bool" where
  "swarm_inv cfg s \<longleftrightarrow>
     swarm s \<noteq> [] \<and> length (swarm s) = nat (NUM_PARTICLES cfg)
     \<and> global_best_value s = Min (best_values (swarm s))"



text \<open>A vector of the configured dimension with every coordinate within the bounds.\<close>

definition in_bounds :: "config \<Rightarrow> real list \<Rightarrow> bool" where
  "in_bounds cfg v \<longleftrightarrow>
     length v = nat (NUM_DIMENSIONS cfg) \<and> (\<forall>x\<in>set v. X_MIN cfg \<le> x \<and> x \<le> X_MAX cfg)"

text \<open>A particle as the operations keep it.\<close>

definition particle_wf :: "config \<Rightarrow> particle \<Rightarrow> bool" where
  "particle_wf cfg p \<longleftrightarrow>
     in_bounds cfg (position p) \<and> in_bounds cfg (best_position p)
     \<and> length (velocity p) = nat (NUM_DIMENSIONS cfg)
     \<and> best_value p = michalewicz (best_position p)"

text \<open>A state whose particles are all of that kind.\<close>

definition state_wf :: "config \<Rightarrow> swarm_state \<Rightarrow> bool" where
  "state_wf cfg s \<longleftrightarrow>
     swarm_inv cfg s \<and> (\<forall>p\<in>set (swarm s). particle_wf cfg p)
     \<and> length (global_best_position s) = nat (NUM_DIMENSIONS cfg)"

text \<open>A value between minus the dimension and 0.\<close>

definition in_range :: "config \<Rightarrow> real \<Rightarrow> bool" where
  "in_range cfg v \<longleftrightarrow> - real_of_int (NUM_DIMENSIONS cfg) \<le> v \<and> v \<le> 0"

text \<open>The loop invariant for the range of the values.\<close>

definition range_inv :: "config \<Rightarrow> swarm_state \<Rightarrow> bool" where
  "range_inv cfg s \<longleftrightarrow>
     state_wf cfg s \<and> (\<forall>v\<in>set (best_values_history s). in_range cfg v)"

text \<open>The loop invariant when nothing moves; \<open>s0\<close> is the initial state.\<close>

definition frozen_inv :: "swarm_state \<Rightarrow> swarm_state \<Rightarrow> bool" where
  "frozen_inv s0 s \<longleftrightarrow>
     swarm s = swarm s0 \<and> global_best_value s = global_best_value s0
     \<and> global_best_position s = global_best_position s0
     \<and> (\<forall>v\<in>set (best_values_history s). v = global_best_value s0)"

subsection \<open>Concrete inputs\<close>

text \<open>A particle away from its personal best.\<close>

definition example_particle :: particle where
  "example_particle =
     \<lparr> position = [1, 1, 1, 1, 3], velocity = [10, 0, 0, 0, 1],
       best_position = [2, 1, 1, 1, 1], best_value = michalewicz [2, 1, 1, 1, 1] \<rparr>"

text \<open>Constant unit samples.\<close>

definition half_draws :: "nat \<Rightarrow> real" where
  "half_draws i = 1 / 2"

definition zero_draws :: "nat \<Rightarrow> real" where
  "zero_draws i = 0"

text \<open>A particle that is about to reach a position as good as its best, not better.\<close>

definition tie_particle :: particle where
  "tie_particle =
     \<lparr> position = [0, 0, 0, 0, 4], velocity = [0, 0, 0, 0, -5],
       best_position = [pi, 0, 0, 0, 0], best_value = 0 \<rparr>"

text \<open>The particle that all-zero samples initialise.\<close>

definition zero_particle :: particle where
  "zero_particle =
     \<lparr> position = [0, 0, 0, 0, 0], velocity = [0, 0, 0, 0, 0],
       best_position = [0, 0, 0, 0, 0], best_value = 0 \<rparr>"



text \<open>The same samples for every particle and iteration.\<close>

definition half_rnd :: "nat \<Rightarrow> nat \<Rightarrow> (nat \<Rightarrow> real) \<times> (nat \<Rightarrow> real)" where
  "half_rnd it k = (half_draws, half_draws)"

text \<open>A state of two particles.\<close>

definition two_state :: swarm_state where
  "two_state =
     \<lparr> swarm = [zero_particle, tie_particle],
       global_best_position = [0, 0, 0, 0, 0],
       global_best_value = 0,
       best_values_history = [],
       avg_values_history = [],
       diversity_history = [],
       iterations = 0,
       global_min_found = False \<rparr>"


text \<open>The configuration of the source with two particles.\<close>

definition two_particle_config :: config where
  "two_particle_config = default_config \<lparr> NUM_PARTICLES := 2 \<rparr>"

text \<open>Initial samples that put the first particle at the origin and the second at \<open>[0, pi / 3, 0, 0, 0]\<close>.\<close>

definition third_irnd :: "nat \<Rightarrow> nat \<Rightarrow> real" where
  "third_irnd k i = (if k = 1 \<and> i = 1 then 1 / 3 else 0)"

definition three_quarter_draws :: "nat \<Rightarrow> real" where
  "three_quarter_draws i = 3 / 4"

text \<open>Samples that pull a particle one and a half times the way to the global best position.\<close>

definition pull_rnd :: "nat \<Rightarrow> nat \<Rightarrow> (nat \<Rightarrow> real) \<times> (nat \<Rightarrow> real)" where
  "pull_rnd it k = (zero_draws, three_quarter_draws)"

definition third_particle :: particle where
  "third_particle =
     \<lparr> position = [0, pi / 3, 0, 0, 0], velocity = [0, 0, 0, 0, 0],
       best_position = [0, pi / 3, 0, 0, 0], best_value = michalewicz [0, pi / 3, 0, 0, 0] \<rparr>"

text \<open>The initial state of two particles that these samples give.\<close>

definition pulled_state :: swarm_state where
  "pulled_state =
     \<lparr> swarm = [zero_particle, third_particle],
       global_best_position = [0, pi / 3, 0, 0, 0],
       global_best_value = michalewicz [0, pi / 3, 0, 0, 0],
       best_values_history = [],
       avg_values_history = [],
       diversity_history = [],
       iterations = 0,
       global_min_found = False \<rparr>"

text \<open>Two particles, and all three coefficients 0.\<close>

definition frozen_config :: config where
  "frozen_config =
     two_particle_config \<lparr> INERTIA_WEIGHT := 0, COGNITIVE_CONST := 0, SOCIAL_CONST := 0 \<rparr>"

text \<open>The configuration of the source with no iteration allowed.\<close>

definition zero_iterations_config :: config where
  "zero_iterations_config = default_config \<lparr> MAX_ITERATIONS := 0 \<rparr>"



section \<open>Basic facts\<close>

lemma michalewicz_term_bounds:
  assumes "0 \<le> x" "x \<le> pi"
  shows "0 \<le> michalewicz_term m i x" "michalewicz_term m i x \<le> 1"
proof -
  let ?s = "sin ((real (i + 1) * x\<^sup>2) / pi)"
  have a: "0 \<le> sin x" using assms by (rule sin_ge_zero)
  have b: "sin x \<le> 1" by simp
  have "?s ^ (2 * m) = (?s\<^sup>2) ^ m" by (simp add: power_mult)
  moreover have "0 \<le> ?s\<^sup>2" by simp
  moreover have "?s\<^sup>2 \<le> 1"
    using sin_cos_squared_add[of "(real (i + 1) * x\<^sup>2) / pi"]
          zero_le_power2[of "cos ((real (i + 1) * x\<^sup>2) / pi)"] by linarith
  ultimately have c: "0 \<le> ?s ^ (2 * m)" and d: "?s ^ (2 * m) \<le> 1"
    by (simp_all add: power_le_one)
  show "0 \<le> michalewicz_term m i x"
    unfolding michalewicz_term_def using a c by simp
  show "michalewicz_term m i x \<le> 1"
    unfolding michalewicz_term_def using a b c d by (simp add: mult_le_one)
qed

lemma michalewicz_loop_bounds:
  assumes "\<forall>x\<in>set xs. 0 \<le> x \<and> x \<le> pi"
  shows "tot \<le> michalewicz_loop m i xs tot \<and> michalewicz_loop m i xs tot \<le> tot + real (length xs)"
  using assms
proof (induction xs arbitrary: i tot)
  case Nil
  then show ?case by simp
next
  case (Cons x xs)
  have t: "0 \<le> michalewicz_term m i x" "michalewicz_term m i x \<le> 1"
    using Cons.prems by (simp_all add: michalewicz_term_bounds)
  have ih: "tot + michalewicz_term m i x \<le> michalewicz_loop m (Suc i) xs (tot + michalewicz_term m i x)
      \<and> michalewicz_loop m (Suc i) xs (tot + michalewicz_term m i x) \<le> tot + michalewicz_term m i x + real (length xs)"
    using Cons.IH Cons.prems by simp
  show ?case using t ih by simp
qed

lemma michalewicz_bounds:
  assumes "\<forall>x\<in>set xs. 0 \<le> x \<and> x \<le> pi"
  shows "- real (length xs) \<le> michalewicz xs" "michalewicz xs \<le> 0"
  using michalewicz_loop_bounds[OF assms, of 0 10 0] by (simp_all add: michalewicz_def)

lemma length_vadd [simp]: "length (vadd a b) = min (length a) (length b)"
  by (simp add: vadd_def)
lemma length_vsub [simp]: "length (vsub a b) = min (length a) (length b)"
  by (simp add: vsub_def)
lemma length_vmul [simp]: "length (vmul a b) = min (length a) (length b)"
  by (simp add: vmul_def)
lemma length_smul [simp]: "length (smul c a) = length a"
  by (simp add: smul_def)
lemma length_np_clip [simp]: "length (np_clip a lo hi) = length a"
  by (simp add: np_clip_def)
lemma length_uniform [simp]: "length (uniform lo hi n u) = n"
  by (simp add: uniform_def)
lemma length_np_zeros [simp]: "length (np_zeros n) = n"
  by (simp add: np_zeros_def)

lemma nth_vadd: "i < length a \<Longrightarrow> i < length b \<Longrightarrow> vadd a b ! i = a ! i + b ! i"
  by (simp add: vadd_def)
lemma nth_vsub: "i < length a \<Longrightarrow> i < length b \<Longrightarrow> vsub a b ! i = a ! i - b ! i"
  by (simp add: vsub_def)
lemma nth_vmul: "i < length a \<Longrightarrow> i < length b \<Longrightarrow> vmul a b ! i = a ! i * b ! i"
  by (simp add: vmul_def)
lemma nth_smul: "i < length a \<Longrightarrow> smul c a ! i = c * a ! i"
  by (simp add: smul_def)
lemma nth_uniform: "i < n \<Longrightarrow> uniform lo hi n u ! i = lo + (hi - lo) * u i"
  by (simp add: uniform_def)

lemma np_clip_range:
  "lo \<le> hi \<Longrightarrow> x \<in> set (np_clip a lo hi) \<Longrightarrow> lo \<le> x \<and> x \<le> hi"
  by (auto simp: np_clip_def)

lemma np_clip_id:
  "\<forall>x\<in>set a. lo \<le> x \<and> x \<le> hi \<Longrightarrow> np_clip a lo hi = a"
  by (induction a) (auto simp: np_clip_def)

lemma uniform_range:
  assumes "lo \<le> hi" "\<forall>i<n. 0 \<le> u i \<and> u i \<le> 1" "x \<in> set (uniform lo hi n u)"
  shows "lo \<le> x \<and> x \<le> hi"
proof -
  from assms(3) obtain i where i: "i < n" and x: "x = lo + (hi - lo) * u i"
    by (auto simp: uniform_def)
  have "0 \<le> (hi - lo) * u i" using assms(1,2) i by simp
  moreover have "(hi - lo) * u i \<le> (hi - lo) * 1"
    using assms(1,2) i by (intro mult_left_mono) auto
  ultimately show ?thesis using x by simp
qed

text \<open>Values far from the ends of the float range; when the initialisation returns.\<close>

lemma float_overflow_small: "\<bar>y\<bar> < 2 ^ 1023 \<Longrightarrow> \<not> float_overflow y"
proof -
  assume a: "\<bar>y\<bar> < 2 ^ 1023"
  have "(2::real) ^ 970 \<le> 2 ^ 1023" by (rule power_increasing) simp_all
  moreover have "(2::real) ^ 1024 = 2 * 2 ^ 1023" by (simp only: power_Suc[symmetric]) simp
  ultimately have "(2::real) ^ 1023 \<le> 2 ^ 1024 - 2 ^ 970" by linarith
  with a show ?thesis unfolding float_overflow_def float_limit_def by linarith
qed

lemma sin_raises_bounded:
  assumes "\<bar>x\<bar> \<le> M" and "real (Suc i) * M\<^sup>2 < 2 ^ 1023"
  shows "\<not> sin_raises i x"
proof -
  have sq: "x\<^sup>2 \<le> M\<^sup>2" using assms(1) by (simp add: abs_le_square_iff[symmetric])
  have "real (Suc i) * x\<^sup>2 \<le> real (Suc i) * M\<^sup>2"
    using sq by (intro mult_left_mono) simp_all
  with assms(2) have b: "real (Suc i) * x\<^sup>2 < 2 ^ 1023" by linarith
  have "x\<^sup>2 \<le> real (Suc i) * x\<^sup>2"
    using mult_right_mono[of 1 "real (Suc i)" "x\<^sup>2"] by simp
  with b have a: "x\<^sup>2 < 2 ^ 1023" by linarith
  have "\<not> float_overflow (x\<^sup>2)" using a by (intro float_overflow_small) simp
  moreover have "\<not> float_overflow (real (i + 1) * x\<^sup>2)"
    using b by (intro float_overflow_small) (simp add: abs_mult)
  ultimately show ?thesis by (simp add: sin_raises_def)
qed

lemma michalewicz_no_raise:
  assumes "\<forall>x\<in>set xs. \<bar>x\<bar> \<le> M" and "real (i + length xs) * M\<^sup>2 < 2 ^ 1023"
  shows "\<not> michalewicz_raises i xs"
  using assms
proof (induction xs arbitrary: i)
  case Nil
  then show ?case by simp
next
  case (Cons x xs)
  have "real (Suc i) * M\<^sup>2 \<le> real (i + length (x # xs)) * M\<^sup>2"
    by (intro mult_right_mono) simp_all
  with Cons.prems(2) have "real (Suc i) * M\<^sup>2 < 2 ^ 1023" by linarith
  with Cons.prems(1) have a: "\<not> sin_raises i x" by (intro sin_raises_bounded) simp_all
  have "\<not> michalewicz_raises (Suc i) xs"
    using Cons.prems by (intro Cons.IH) simp_all
  with a show ?case by simp
qed

lemma michalewicz_no_raise_5:
  assumes "\<forall>x\<in>set xs. \<bar>x\<bar> \<le> 4" and "length xs \<le> 5"
  shows "\<not> michalewicz_raises 0 xs"
proof (rule michalewicz_no_raise[where M = 4])
  show "\<forall>x\<in>set xs. \<bar>x\<bar> \<le> 4" by (rule assms(1))
  have "real (0 + length xs) * 4\<^sup>2 \<le> 5 * 4\<^sup>2" using assms(2) by simp
  also have "\<dots> < (2::real) ^ 7" by simp
  also have "\<dots> \<le> 2 ^ 1023" by (rule power_increasing) simp_all
  finally show "real (0 + length xs) * 4\<^sup>2 < 2 ^ 1023" .
qed

lemma pi_range_ok: "\<not> float_overflow (pi - 0)"
proof (rule float_overflow_small)
  have "\<bar>pi - 0\<bar> < (2::real) ^ 2" using pi_less_4 pi_gt_zero by simp
  also have "\<dots> \<le> 2 ^ 1023" by (rule power_increasing) simp_all
  finally show "\<bar>pi - 0\<bar> < 2 ^ 1023" .
qed

lemma Particle_init_Inr_iff:
  "Particle_init cfg u = Inr p \<longleftrightarrow>
     \<not> float_overflow (X_MAX cfg - X_MIN cfg) \<and> 0 \<le> NUM_DIMENSIONS cfg
     \<and> \<not> michalewicz_raises 0 (uniform (X_MIN cfg) (X_MAX cfg) (nat (NUM_DIMENSIONS cfg)) u)
     \<and> p = \<lparr> position = uniform (X_MIN cfg) (X_MAX cfg) (nat (NUM_DIMENSIONS cfg)) u,
             velocity = np_zeros (nat (NUM_DIMENSIONS cfg)),
             best_position = uniform (X_MIN cfg) (X_MAX cfg) (nat (NUM_DIMENSIONS cfg)) u,
             best_value = michalewicz (uniform (X_MIN cfg) (X_MAX cfg)
                                         (nat (NUM_DIMENSIONS cfg)) u) \<rparr>"
  by (auto simp: Particle_init_def Let_def)


section \<open>The particle operations\<close>

text \<open>
  Claim C2. \<open>update_velocity\<close> leaves position, best position and best value as they
  are and sets, in every dimension \<open>i\<close>, the velocity to
  \<open>w * velocity[i] + c1 * r1[i] * (best_position[i] - position[i])
   + c2 * r2[i] * (global_best_position[i] - position[i])\<close>, where \<open>r1[i]\<close> and \<open>r2[i]\<close> are
  the two samples drawn for that dimension. Nothing bounds the result.
\<close>

theorem update_velocity_formula:
  assumes "length (position p) = nat (NUM_DIMENSIONS cfg)"
    and "length (velocity p) = nat (NUM_DIMENSIONS cfg)"
    and "length (best_position p) = nat (NUM_DIMENSIONS cfg)"
    and "length g = nat (NUM_DIMENSIONS cfg)"
  shows "position (update_velocity cfg p g u1 u2) = position p
     \<and> best_position (update_velocity cfg p g u1 u2) = best_position p
     \<and> best_value (update_velocity cfg p g u1 u2) = best_value p
     \<and> length (velocity (update_velocity cfg p g u1 u2)) = nat (NUM_DIMENSIONS cfg)
     \<and> (\<forall>i < nat (NUM_DIMENSIONS cfg).
           uniform 0 1 (nat (NUM_DIMENSIONS cfg)) u1 ! i = u1 i
         \<and> uniform 0 1 (nat (NUM_DIMENSIONS cfg)) u2 ! i = u2 i
         \<and> velocity (update_velocity cfg p g u1 u2) ! i =
             INERTIA_WEIGHT cfg * velocity p ! i
             + COGNITIVE_CONST cfg * u1 i * (best_position p ! i - position p ! i)
             + SOCIAL_CONST cfg * u2 i * (g ! i - position p ! i))"
  using assms
  by (simp add: update_velocity_def Let_def nth_vadd nth_vsub nth_vmul nth_smul nth_uniform)

theorem update_velocity_formula_witness:
  "length (position example_particle) = nat (NUM_DIMENSIONS default_config)
   \<and> length (velocity example_particle) = nat (NUM_DIMENSIONS default_config)
   \<and> length (best_position example_particle) = nat (NUM_DIMENSIONS default_config)
   \<and> length [3, 1, 1, 1, 1 :: real] = nat (NUM_DIMENSIONS default_config)
   \<and> velocity (update_velocity default_config example_particle [3, 1, 1, 1, 1] half_draws half_draws) ! 0
       = 4"
  using update_velocity_formula[of example_particle default_config "[3, 1, 1, 1, 1]" half_draws half_draws]
  by (simp add: example_particle_def default_config_def half_draws_def)

lemma update_position_velocity [simp]: "velocity (update_position cfg p) = velocity p"
  by (simp add: update_position_def Let_def)


lemma update_position_best_value_le: "best_value (update_position cfg p) \<le> best_value p"
  by (simp add: update_position_def Let_def)

lemma update_position_consistent:
  "best_value p = michalewicz (best_position p) \<Longrightarrow>
   best_value (update_position cfg p) = michalewicz (best_position (update_position cfg p))"
  by (simp add: update_position_def Let_def)

lemma update_velocity_fields [simp]:
  "position (update_velocity cfg p g u1 u2) = position p"
  "best_position (update_velocity cfg p g u1 u2) = best_position p"
  "best_value (update_velocity cfg p g u1 u2) = best_value p"
  by (simp_all add: update_velocity_def Let_def)


lemma michalewicz_zeros: "michalewicz [0, 0, 0, 0, 0] = 0"
  by (simp add: michalewicz_def michalewicz_term_def)


lemma apply_call_best_value_le: "best_value (apply_call cfg c p) \<le> best_value p"
  by (cases c) (simp_all add: update_position_best_value_le)

lemma apply_call_consistent:
  "best_value p = michalewicz (best_position p) \<Longrightarrow>
   best_value (apply_call cfg c p) = michalewicz (best_position (apply_call cfg c p))"
  by (cases c) (simp_all add: update_position_consistent)

lemma apply_calls_best_value_le: "best_value (apply_calls cfg cs p) \<le> best_value p"
proof (induction cs arbitrary: p)
  case Nil
  then show ?case by (simp add: apply_calls_def)
next
  case (Cons c cs)
  have "best_value (apply_calls cfg cs (apply_call cfg c p)) \<le> best_value (apply_call cfg c p)"
    by (rule Cons.IH)
  also have "\<dots> \<le> best_value p" by (rule apply_call_best_value_le)
  finally show ?case by (simp add: apply_calls_def)
qed

lemma apply_calls_consistent:
  "best_value p = michalewicz (best_position p) \<Longrightarrow>
   best_value (apply_calls cfg cs p) = michalewicz (best_position (apply_calls cfg cs p))"
proof (induction cs arbitrary: p)
  case Nil
  then show ?case by (simp add: apply_calls_def)
next
  case (Cons c cs)
  from Cons.IH[OF apply_call_consistent[OF Cons.prems]]
  show ?case by (simp add: apply_calls_def)
qed

lemma apply_calls_append:
  "apply_calls cfg (cs @ ds) p = apply_calls cfg ds (apply_calls cfg cs p)"
  by (simp add: apply_calls_def)

lemma Particle_init_consistent:
  "Particle_init cfg u = Inr p \<Longrightarrow> best_value p = michalewicz (best_position p)"
  by (simp add: Particle_init_Inr_iff)

text \<open>
  Claim C4. After initialisation and after any sequence of calls of
  \<open>update_velocity\<close> and \<open>update_position\<close>, the best value of a particle is the
  objective at its best position, and the best value never goes up along the sequence.
\<close>

theorem personal_best_invariant:
  assumes "Particle_init cfg u = Inr p0"
  shows "best_value p0 = michalewicz (best_position p0)
     \<and> best_value (apply_calls cfg cs p0) = michalewicz (best_position (apply_calls cfg cs p0))
     \<and> best_value (apply_calls cfg (cs @ ds) p0) \<le> best_value (apply_calls cfg cs p0)
     \<and> best_value (apply_calls cfg cs p0) \<le> best_value p0"
  using Particle_init_consistent[OF assms] apply_calls_consistent[of p0 cfg cs]
    apply_calls_best_value_le[of cfg ds "apply_calls cfg cs p0"]
    apply_calls_best_value_le[of cfg cs p0]
  by (simp add: apply_calls_append)

lemma upt_5: "[0..<5] = [0, 1, 2, 3, 4]"
  by (simp add: upt_rec)

lemma Particle_init_zero: "Particle_init default_config zero_draws = Inr zero_particle"
proof -
  have u: "uniform 0 pi 5 zero_draws = [0, 0, 0, 0, 0]"
    by (simp add: uniform_def upt_5 zero_draws_def)
  have "\<not> michalewicz_raises 0 [0, 0, 0, 0, 0 :: real]"
    by (rule michalewicz_no_raise_5) simp_all
  with u pi_range_ok show ?thesis
    by (simp add: Particle_init_Inr_iff default_config_def zero_particle_def np_zeros_def
          michalewicz_zeros eval_nat_numeral)
qed

theorem personal_best_invariant_witness:
  "Particle_init default_config zero_draws = Inr zero_particle
   \<and> best_value (apply_calls default_config
         [UpdateVelocity [1, 1, 1, 1, 1] half_draws half_draws, UpdatePosition] zero_particle)
       = michalewicz (best_position (apply_calls default_config
         [UpdateVelocity [1, 1, 1, 1, 1] half_draws half_draws, UpdatePosition] zero_particle))
   \<and> best_value (apply_calls default_config
         [UpdateVelocity [1, 1, 1, 1, 1] half_draws half_draws, UpdatePosition] zero_particle)
       \<le> best_value zero_particle"
  using personal_best_invariant[OF Particle_init_zero,
      of "[UpdateVelocity [1, 1, 1, 1, 1] half_draws half_draws, UpdatePosition]" "[]"]
    Particle_init_zero
  by simp

section \<open>Initialisation of a particle\<close>






section \<open>One step over the particles\<close>

lemma length_step_particles [simp]: "length (step_particles cfg g rnd k sw) = length sw"
  by (induction sw arbitrary: k) simp_all

lemma nth_step_particles:
  "i < length sw \<Longrightarrow>
   step_particles cfg g rnd k sw ! i = update_particle cfg g (rnd (k + i)) (sw ! i)"
proof (induction sw arbitrary: k i)
  case Nil
  then show ?case by simp
next
  case (Cons p ps)
  show ?case
  proof (cases i)
    case 0
    then show ?thesis by simp
  next
    case (Suc j)
    with Cons.prems have "j < length ps" by simp
    from Cons.IH[OF this, of "Suc k"] Suc show ?thesis by simp
  qed
qed

lemma length_fold_update:
  "length (fold (\<lambda>k s. s[k := f k (s ! k)]) order sw) = length sw"
  by (induction order arbitrary: sw) simp_all

lemma nth_fold_update:
  assumes "distinct order" and "i < length sw"
  shows "fold (\<lambda>k s. s[k := f k (s ! k)]) order sw ! i
         = (if i \<in> set order then f i (sw ! i) else sw ! i)"
  using assms
proof (induction order arbitrary: sw)
  case Nil
  then show ?case by simp
next
  case (Cons k ks)
  let ?sw = "sw[k := f k (sw ! k)]"
  have d: "distinct ks" and nk: "k \<notin> set ks" using Cons.prems(1) by simp_all
  have len: "i < length ?sw" using Cons.prems(2) by simp
  have ih: "fold (\<lambda>k s. s[k := f k (s ! k)]) ks ?sw ! i
            = (if i \<in> set ks then f i (?sw ! i) else ?sw ! i)"
    by (rule Cons.IH[OF d len])
  show ?case
  proof (cases "i = k")
    case True
    with nk ih Cons.prems(2) show ?thesis by simp
  next
    case False
    with ih show ?thesis by simp
  qed
qed

lemma length_step_particles_in_order [simp]:
  "length (step_particles_in_order cfg g rnd order sw) = length sw"
  unfolding step_particles_in_order_def
  by (rule length_fold_update[of "\<lambda>k. update_particle cfg g (rnd k)"])

lemma step_particles_in_order_eq:
  assumes "distinct order" and "set order = {0..<length sw}"
  shows "step_particles_in_order cfg g rnd order sw = step_particles cfg g rnd 0 sw"
proof (rule nth_equalityI)
  show "length (step_particles_in_order cfg g rnd order sw)
        = length (step_particles cfg g rnd 0 sw)"
    by simp
next
  fix i
  assume "i < length (step_particles_in_order cfg g rnd order sw)"
  then have i: "i < length sw" by simp
  then have mem: "i \<in> set order" using assms(2) by simp
  have "step_particles_in_order cfg g rnd order sw ! i
        = update_particle cfg g (rnd i) (sw ! i)"
    unfolding step_particles_in_order_def
    using nth_fold_update[OF assms(1) i, of "\<lambda>k. update_particle cfg g (rnd k)"] mem
    by simp
  also have "\<dots> = step_particles cfg g rnd 0 sw ! i"
    using nth_step_particles[OF i, of cfg g rnd 0] by simp
  finally show "step_particles_in_order cfg g rnd order sw ! i
                = step_particles cfg g rnd 0 sw ! i" .
qed

text \<open>
  Claim C7. In one step every particle is updated from its own state, its own samples
  and the global best position the step started with, so the swarm after the particle
  loop, and with it the state after the whole loop body, is the same in whatever order
  the particles are processed.
\<close>

theorem step_order_independent:
  assumes "distinct order" and "set order = {0..<length (swarm s)}"
  shows "(\<forall>i < length (swarm s).
            swarm (update_swarm cfg rnd s) ! i
            = update_particle cfg (global_best_position s) (rnd (iterations s) i) (swarm s ! i))
     \<and> step_particles_in_order cfg (global_best_position s) (rnd (iterations s)) order (swarm s)
         = swarm (update_swarm cfg rnd s)
     \<and> finish_iteration cfg
           (s \<lparr> swarm := step_particles_in_order cfg (global_best_position s)
                            (rnd (iterations s)) order (swarm s) \<rparr>)
         = loop_body cfg rnd s"
proof -
  have a: "\<forall>i < length (swarm s).
            swarm (update_swarm cfg rnd s) ! i
            = update_particle cfg (global_best_position s) (rnd (iterations s) i) (swarm s ! i)"
    by (simp add: update_swarm_def nth_step_particles)
  have b: "step_particles_in_order cfg (global_best_position s) (rnd (iterations s)) order (swarm s)
         = swarm (update_swarm cfg rnd s)"
    using step_particles_in_order_eq[OF assms] by (simp add: update_swarm_def)
  have c: "finish_iteration cfg
           (s \<lparr> swarm := step_particles_in_order cfg (global_best_position s)
                            (rnd (iterations s)) order (swarm s) \<rparr>)
         = loop_body cfg rnd s"
    unfolding b by (simp add: loop_body_def update_swarm_def)
  from a b c show ?thesis by blast
qed

theorem step_order_independent_witness:
  "distinct [1, 0 :: nat] \<and> set [1, 0 :: nat] = {0..<length (swarm two_state)}
   \<and> step_particles_in_order default_config (global_best_position two_state)
        (half_rnd (iterations two_state)) [1, 0] (swarm two_state)
      = swarm (update_swarm default_config half_rnd two_state)
   \<and> finish_iteration default_config
           (two_state \<lparr> swarm := step_particles_in_order default_config
               (global_best_position two_state) (half_rnd (iterations two_state)) [1, 0]
               (swarm two_state) \<rparr>)
         = loop_body default_config half_rnd two_state"
proof -
  have h1: "distinct [1, 0 :: nat]" by simp
  have h2: "set [1, 0 :: nat] = {0..<length (swarm two_state)}"
    by (auto simp: two_state_def)
  from step_order_independent[OF h1 h2, of default_config half_rnd] h1 h2
  show ?thesis by blast
qed

section \<open>The diversity measure\<close>





















section \<open>The optimisation loop\<close>

lemma min_scan_mem: "min_scan b qs \<in> set (b # qs)"
  by (induction qs arbitrary: b) auto

lemma min_scan_le: "q \<in> set (b # qs) \<Longrightarrow> best_value (min_scan b qs) \<le> best_value q"
proof (induction qs arbitrary: b q)
  case Nil
  then show ?case by simp
next
  case (Cons a qs)
  let ?b = "if best_value a < best_value b then a else b"
  have le: "best_value (min_scan ?b qs) \<le> best_value ?b"
    using Cons.IH[where b = ?b and q = ?b] by simp
  from Cons.prems consider "q = b" | "q = a" | "q \<in> set qs" by auto
  then show ?case
  proof cases
    case 1
    then show ?thesis using le by (auto split: if_splits)
  next
    case 2
    then show ?thesis using le by (auto split: if_splits)
  next
    case 3
    then show ?thesis using Cons.IH[where b = ?b and q = q] by simp
  qed
qed

lemma min_by_best_value_Min:
  assumes "sw \<noteq> []"
  shows "\<exists>c. min_by_best_value sw = Inr c \<and> c \<in> set sw
           \<and> best_value c = Min (best_values sw)"
proof -
  from assms obtain p ps where sw: "sw = p # ps" by (cases sw) auto
  let ?c = "min_scan p ps"
  have m: "?c \<in> set sw" unfolding sw by (rule min_scan_mem)
  have "best_value ?c = Min (best_values sw)"
  proof (rule sym, rule Min_eqI)
    show "finite (best_values sw)" by (simp add: best_values_def)
    show "best_value ?c \<in> best_values sw" using m by (simp add: best_values_def)
    fix y
    assume "y \<in> best_values sw"
    then obtain q where "q \<in> set (p # ps)" "y = best_value q"
      by (auto simp: best_values_def sw)
    then show "best_value ?c \<le> y" using min_scan_le[of q p ps] by simp
  qed
  with m show ?thesis by (simp add: min_by_best_value_def sw)
qed

lemma min_by_best_value_empty: "min_by_best_value [] = Inl ValueError"
  by (simp add: min_by_best_value_def)

lemma update_particle_best_value_le: "best_value (update_particle cfg g r p) \<le> best_value p"
  using update_position_best_value_le[of cfg "update_velocity cfg p g (fst r) (snd r)"]
  by (simp add: update_particle_def)

lemma step_particles_Min_le:
  assumes "sw \<noteq> []"
  shows "Min (best_values (step_particles cfg g rnd k sw)) \<le> Min (best_values sw)"
proof -
  have fin: "finite (best_values sw)" "best_values sw \<noteq> {}"
    using assms by (simp_all add: best_values_def)
  then have "Min (best_values sw) \<in> best_values sw" by (rule Min_in)
  then obtain i where i: "i < length sw" and m: "Min (best_values sw) = best_value (sw ! i)"
    by (auto simp: best_values_def in_set_conv_nth)
  let ?sw = "step_particles cfg g rnd k sw"
  have "?sw ! i \<in> set ?sw" using i by simp
  then have "best_value (?sw ! i) \<in> best_values ?sw" by (simp add: best_values_def)
  then have "Min (best_values ?sw) \<le> best_value (?sw ! i)"
    by (simp add: best_values_def)
  also have "\<dots> \<le> best_value (sw ! i)"
    using i by (simp add: nth_step_particles update_particle_best_value_le)
  finally show ?thesis using m by simp
qed

lemma step_particles_eq_Nil [simp]: "step_particles cfg g rnd k sw = [] \<longleftrightarrow> sw = []"
  by (cases sw) simp_all

lemma diversity_ok:
  "length ps = n \<Longrightarrow> diversity n ps = Inr (np_mean (distances n ps))"
  by (simp add: diversity_def)

text \<open>What one run of the loop body does to the global best and the histories.\<close>

lemma loop_body_result:
  assumes "swarm s \<noteq> []" and "length (swarm s) = nat (NUM_PARTICLES cfg)"
  shows "\<exists>s'. loop_body cfg rnd s = Inr s'
     \<and> swarm s' = swarm (update_swarm cfg rnd s)
     \<and> global_best_value s' = min (global_best_value s) (Min (best_values (swarm s')))
     \<and> (global_best_position s' = global_best_position s
          \<or> (\<exists>p\<in>set (swarm s'). global_best_position s' = best_position p
                \<and> best_value p = global_best_value s'))
     \<and> (global_best_value s' = global_best_value s
          \<longrightarrow> global_best_position s' = global_best_position s)
     \<and> best_values_history s' = best_values_history s @ [global_best_value s']
     \<and> length (avg_values_history s') = Suc (length (avg_values_history s))
     \<and> length (diversity_history s') = Suc (length (diversity_history s))
     \<and> (global_min_found s' \<or> iterations s' = Suc (iterations s))"
proof -
  let ?u = "update_swarm cfg rnd s"
  have ne: "swarm ?u \<noteq> []" using assms(1) by (simp add: update_swarm_def)
  have len: "length (map position (swarm ?u)) = nat (NUM_PARTICLES cfg)"
    using assms(2) by (simp add: update_swarm_def)
  from min_by_best_value_Min[OF ne] obtain c where
    c: "min_by_best_value (swarm ?u) = Inr c" and cm: "c \<in> set (swarm ?u)"
    and cv: "best_value c = Min (best_values (swarm ?u))" by blast
  have gs: "global_best_value ?u = global_best_value s"
    "global_best_position ?u = global_best_position s"
    "best_values_history ?u = best_values_history s"
    "avg_values_history ?u = avg_values_history s"
    "diversity_history ?u = diversity_history s"
    "iterations ?u = iterations s"
    by (simp_all add: update_swarm_def)
  show ?thesis
  proof (cases "best_value c < global_best_value s")
    case True
    then show ?thesis
      using c cm cv gs diversity_ok[OF len]
      by (auto simp: loop_body_def finish_iteration_def Let_def min_def)
  next
    case False
    then show ?thesis
      using c cm cv gs diversity_ok[OF len]
      by (auto simp: loop_body_def finish_iteration_def Let_def min_def)
  qed
qed

lemma init_particles_Inr:
  "init_particles cfg irnd ks = Inr sw \<Longrightarrow>
   length sw = length ks \<and> (\<forall>i < length ks. Particle_init cfg (irnd (ks ! i)) = Inr (sw ! i))"
proof (induction ks arbitrary: sw)
  case Nil
  then show ?case by simp
next
  case (Cons k ks)
  from Cons.prems obtain p ps where p: "Particle_init cfg (irnd k) = Inr p"
    and ps: "init_particles cfg irnd ks = Inr ps" and sw: "sw = p # ps"
    by (auto split: sum.splits)
  from Cons.IH[OF ps] p sw show ?case by (auto simp: nth_Cons split: nat.splits)
qed

lemma init_particles_total:
  "\<forall>k\<in>set ks. \<exists>p. Particle_init cfg (irnd k) = Inr p
   \<Longrightarrow> \<exists>sw. init_particles cfg irnd ks = Inr sw"
proof (induction ks)
  case Nil
  then show ?case by simp
next
  case (Cons k ks)
  then obtain sw where "init_particles cfg irnd ks = Inr sw" by auto
  moreover from Cons.prems obtain p where "Particle_init cfg (irnd k) = Inr p" by auto
  ultimately show ?case by simp
qed

lemma init_state_total:
  assumes "0 < NUM_PARTICLES cfg"
    and "\<forall>k < nat (NUM_PARTICLES cfg). \<exists>p. Particle_init cfg (irnd k) = Inr p"
  shows "\<exists>s0. init_state cfg irnd = Inr s0"
proof -
  from assms(2) have "\<forall>k\<in>set [0..<nat (NUM_PARTICLES cfg)]. \<exists>p. Particle_init cfg (irnd k) = Inr p"
    by simp
  from init_particles_total[OF this] obtain sw where
    sw: "init_particles cfg irnd [0..<nat (NUM_PARTICLES cfg)] = Inr sw" by blast
  from init_particles_Inr[OF sw] assms(1) have "sw \<noteq> []" by auto
  from min_by_best_value_Min[OF this] obtain c where "min_by_best_value sw = Inr c" by blast
  with sw show ?thesis by (simp add: init_state_def)
qed

lemma init_state_Inr:
  assumes "init_state cfg irnd = Inr s0"
  shows "swarm_inv cfg s0" and "best_values_history s0 = []" and "avg_values_history s0 = []"
    and "diversity_history s0 = []" and "iterations s0 = 0" and "\<not> global_min_found s0"
    and "\<forall>i < length (swarm s0). Particle_init cfg (irnd i) = Inr (swarm s0 ! i)"
    and "\<exists>p\<in>set (swarm s0). global_best_position s0 = best_position p
           \<and> global_best_value s0 = best_value p"
proof -
  from assms obtain sw c where
    sw: "init_particles cfg irnd [0..<nat (NUM_PARTICLES cfg)] = Inr sw"
    and c: "min_by_best_value sw = Inr c"
    and s0: "s0 = \<lparr> swarm = sw, global_best_position = best_position c,
                     global_best_value = best_value c, best_values_history = [],
                     avg_values_history = [], diversity_history = [],
                     iterations = 0, global_min_found = False \<rparr>"
    by (auto simp: init_state_def split: sum.splits)
  have ne: "sw \<noteq> []" using c by (auto simp: min_by_best_value_def)
  from min_by_best_value_Min[OF ne] c have cm: "c \<in> set sw"
    and cv: "best_value c = Min (best_values sw)" by auto
  from init_particles_Inr[OF sw] have len: "length sw = nat (NUM_PARTICLES cfg)"
    and ini: "\<forall>i < length sw. Particle_init cfg (irnd i) = Inr (sw ! i)" by auto
  show "swarm_inv cfg s0" using ne len cv by (simp add: swarm_inv_def s0)
  show "best_values_history s0 = []" "avg_values_history s0 = []" "diversity_history s0 = []"
    "iterations s0 = 0" "\<not> global_min_found s0" by (simp_all add: s0)
  show "\<forall>i < length (swarm s0). Particle_init cfg (irnd i) = Inr (swarm s0 ! i)"
    using ini by (simp add: s0)
  show "\<exists>p\<in>set (swarm s0). global_best_position s0 = best_position p
           \<and> global_best_value s0 = best_value p"
    using cm by (auto simp: s0)
qed

text \<open>An invariant of the loop body holds when the loop ends, and the loop does end
  with a state.\<close>

declare pso_loop.simps [simp del]

lemma pso_loop_invariant:
  assumes "\<And>s. I s \<Longrightarrow> \<exists>s'. loop_body cfg rnd s = Inr s' \<and> I s'"
    and "I s"
  shows "\<exists>s'. pso_loop cfg rnd s = Inr s' \<and> I s'
           \<and> \<not> (int (iterations s') < MAX_ITERATIONS cfg \<and> \<not> global_min_found s')"
  using assms
proof (induction cfg rnd s rule: pso_loop.induct)
  case (1 cfg rnd s)
  show ?case
  proof (cases "int (iterations s) < MAX_ITERATIONS cfg \<and> \<not> global_min_found s")
    case True
    from "1.prems"(1)[OF "1.prems"(2)] obtain s1
      where s1: "loop_body cfg rnd s = Inr s1" and i1: "I s1"
      by blast
    have "\<exists>s'. pso_loop cfg rnd s1 = Inr s' \<and> I s'
           \<and> \<not> (int (iterations s') < MAX_ITERATIONS cfg \<and> \<not> global_min_found s')"
      using "1.IH"[OF True s1 _ i1] "1.prems"(1) by blast
    moreover have "pso_loop cfg rnd s = pso_loop cfg rnd s1"
      using True s1 by (subst pso_loop.simps) simp
    ultimately show ?thesis by simp
  next
    case False
    with "1.prems"(2) show ?thesis by (subst pso_loop.simps) auto
  qed
qed

section \<open>The global best\<close>


lemma update_swarm_Min_le:
  "swarm s \<noteq> [] \<Longrightarrow>
   Min (best_values (swarm (update_swarm cfg rnd s))) \<le> Min (best_values (swarm s))"
  by (simp add: update_swarm_def step_particles_Min_le)


lemma michalewicz_term_zero [simp]: "michalewicz_term m i 0 = 0"
  by (simp add: michalewicz_term_def)

lemma michalewicz_second:
  "michalewicz [0, x, 0, 0, 0] = - michalewicz_term 10 (Suc 0) x"
  by (simp add: michalewicz_def)


lemma michalewicz_third_pi:
  "michalewicz [0, pi / 3, 0, 0, 0] < 0" "- 1 < michalewicz [0, pi / 3, 0, 0, 0]"
proof -
  let ?b = "sin (2 * pi / 9) ^ (2 * 10)"
  have e: "(real (Suc 0 + 1) * (pi / 3)\<^sup>2) / pi = 2 * pi / 9"
    by (simp add: power2_eq_square)
  have t: "michalewicz_term 10 (Suc 0) (pi / 3) = sin (pi / 3) * ?b"
    by (simp only: michalewicz_term_def e)
  have s: "0 < sin (2 * pi / 9)" by (rule sin_gt_zero) (use pi_gt_zero in simp_all)
  then have bp: "0 < ?b" by simp
  have "sin (2 * pi / 9) \<le> 1" by simp
  with s have b1: "?b \<le> 1" by (intro power_le_one) simp_all
  have a: "sin (pi / 3) = sqrt 3 / 2" by (rule sin_60)
  have "sqrt 3 < 2" by (rule real_less_lsqrt) simp_all
  then have a1: "sin (pi / 3) < 1" unfolding a by simp
  have a0: "0 < sin (pi / 3)" unfolding a by simp
  have "sin (pi / 3) * ?b \<le> sin (pi / 3) * 1"
    using a0 b1 by (intro mult_left_mono) simp_all
  with a1 have lt: "sin (pi / 3) * ?b < 1" by simp
  have gt: "0 < sin (pi / 3) * ?b" using a0 bp by (rule mult_pos_pos)
  show "michalewicz [0, pi / 3, 0, 0, 0] < 0" "- 1 < michalewicz [0, pi / 3, 0, 0, 0]"
    using lt gt by (simp_all add: michalewicz_second t)
qed

lemma init_pulled_state: "init_state two_particle_config third_irnd = Inr pulled_state"
proof -
  have r0: "\<not> michalewicz_raises 0 [0, 0, 0, 0, 0 :: real]"
    by (rule michalewicz_no_raise_5) simp_all
  have "\<bar>pi / 3\<bar> \<le> 4" using pi_less_4 pi_gt_zero by simp
  then have r1: "\<not> michalewicz_raises 0 [0, pi / 3, 0, 0, 0]"
    by (intro michalewicz_no_raise_5) simp_all
  have p0: "Particle_init two_particle_config (third_irnd 0) = Inr zero_particle"
    using r0 pi_range_ok
    by (simp add: Particle_init_Inr_iff two_particle_config_def default_config_def
          third_irnd_def zero_particle_def uniform_def np_zeros_def upt_5 michalewicz_zeros
          eval_nat_numeral)
  have p1: "Particle_init two_particle_config (third_irnd (Suc 0)) = Inr third_particle"
    using r1 pi_range_ok
    by (simp add: Particle_init_Inr_iff two_particle_config_def default_config_def
          third_irnd_def third_particle_def uniform_def np_zeros_def upt_5 eval_nat_numeral)
  have ps: "init_particles two_particle_config third_irnd [0..<nat (NUM_PARTICLES two_particle_config)]
            = Inr [zero_particle, third_particle]"
    using p0 p1 by (simp add: two_particle_config_def default_config_def upt_rec)
  have "min_by_best_value [zero_particle, third_particle] = Inr third_particle"
    using michalewicz_third_pi(1)
    by (simp add: min_by_best_value_def zero_particle_def third_particle_def)
  with ps show ?thesis
    by (simp add: init_state_def pulled_state_def third_particle_def)
qed






section \<open>Well-formed states and the range of the values\<close>

lemma Particle_init_wf:
  assumes "X_MIN cfg \<le> X_MAX cfg" and "\<forall>i. 0 \<le> u i \<and> u i \<le> 1"
    and "Particle_init cfg u = Inr p"
  shows "particle_wf cfg p" and "velocity p = replicate (nat (NUM_DIMENSIONS cfg)) 0"
    and "best_position p = position p"
proof -
  let ?pos = "uniform (X_MIN cfg) (X_MAX cfg) (nat (NUM_DIMENSIONS cfg)) u"
  from assms(3) have p: "p = \<lparr> position = ?pos, velocity = np_zeros (nat (NUM_DIMENSIONS cfg)),
              best_position = ?pos, best_value = michalewicz ?pos \<rparr>"
    by (simp add: Particle_init_Inr_iff)
  have "in_bounds cfg ?pos"
    unfolding in_bounds_def
    using uniform_range[OF assms(1), of "nat (NUM_DIMENSIONS cfg)" u] assms(2) by auto
  then show "particle_wf cfg p" by (simp add: particle_wf_def p)
  show "velocity p = replicate (nat (NUM_DIMENSIONS cfg)) 0" by (simp add: p np_zeros_def)
  show "best_position p = position p" by (simp add: p)
qed

lemma update_velocity_length:
  assumes "length (position p) = nat (NUM_DIMENSIONS cfg)"
    and "length (velocity p) = nat (NUM_DIMENSIONS cfg)"
    and "length (best_position p) = nat (NUM_DIMENSIONS cfg)"
    and "length g = nat (NUM_DIMENSIONS cfg)"
  shows "length (velocity (update_velocity cfg p g u1 u2)) = nat (NUM_DIMENSIONS cfg)"
  using assms by (simp add: update_velocity_def Let_def)

lemma update_particle_wf:
  assumes "X_MIN cfg \<le> X_MAX cfg" and "particle_wf cfg p"
    and "length g = nat (NUM_DIMENSIONS cfg)"
  shows "particle_wf cfg (update_particle cfg g r p)"
proof -
  let ?q = "update_velocity cfg p g (fst r) (snd r)"
  from assms(2) have lp: "length (position p) = nat (NUM_DIMENSIONS cfg)"
    and lb: "length (best_position p) = nat (NUM_DIMENSIONS cfg)"
    and lv: "length (velocity p) = nat (NUM_DIMENSIONS cfg)"
    and bb: "in_bounds cfg (best_position p)"
    and bv: "best_value p = michalewicz (best_position p)"
    by (simp_all add: particle_wf_def in_bounds_def)
  have lq: "length (velocity ?q) = nat (NUM_DIMENSIONS cfg)"
    by (rule update_velocity_length[OF lp lv lb assms(3)])
  let ?pos = "np_clip (vadd (position ?q) (velocity ?q)) (X_MIN cfg) (X_MAX cfg)"
  have ib: "in_bounds cfg ?pos"
    unfolding in_bounds_def using lp lq np_clip_range[OF assms(1)] by auto
  show ?thesis
    using ib bb bv lq
    by (simp add: update_particle_def update_position_def Let_def particle_wf_def)
qed

lemma step_particles_wf:
  assumes "X_MIN cfg \<le> X_MAX cfg" and "\<forall>p\<in>set sw. particle_wf cfg p"
    and "length g = nat (NUM_DIMENSIONS cfg)"
  shows "\<forall>p\<in>set (step_particles cfg g rnd k sw). particle_wf cfg p"
  using assms(2)
proof (induction sw arbitrary: k)
  case Nil
  then show ?case by simp
next
  case (Cons p ps)
  then show ?case using update_particle_wf[OF assms(1) _ assms(3)] by simp
qed

lemma state_wf_step:
  assumes "X_MIN cfg \<le> X_MAX cfg" and "state_wf cfg s"
  shows "\<exists>s'. loop_body cfg rnd s = Inr s' \<and> state_wf cfg s'
          \<and> best_values_history s' = best_values_history s @ [global_best_value s']"
proof -
  from assms(2) have ne: "swarm s \<noteq> []" and len: "length (swarm s) = nat (NUM_PARTICLES cfg)"
    and g: "global_best_value s = Min (best_values (swarm s))"
    and wf: "\<forall>p\<in>set (swarm s). particle_wf cfg p"
    and lg: "length (global_best_position s) = nat (NUM_DIMENSIONS cfg)"
    by (simp_all add: state_wf_def swarm_inv_def)
  from loop_body_result[OF ne len, of rnd] obtain s' where
    s': "loop_body cfg rnd s = Inr s'"
    and sw: "swarm s' = swarm (update_swarm cfg rnd s)"
    and gv: "global_best_value s' = min (global_best_value s) (Min (best_values (swarm s')))"
    and gp: "global_best_position s' = global_best_position s
          \<or> (\<exists>p\<in>set (swarm s'). global_best_position s' = best_position p
                \<and> best_value p = global_best_value s')"
    and h: "best_values_history s' = best_values_history s @ [global_best_value s']"
    by blast
  have wf': "\<forall>p\<in>set (swarm s'). particle_wf cfg p"
    unfolding sw update_swarm_def using step_particles_wf[OF assms(1) wf lg] by simp
  have "Min (best_values (swarm s')) \<le> global_best_value s"
    unfolding sw g by (rule update_swarm_Min_le[OF ne])
  with gv have gm: "global_best_value s' = Min (best_values (swarm s'))" by simp
  have inv: "swarm_inv cfg s'"
    using ne len gm by (simp add: swarm_inv_def sw update_swarm_def)
  have lg': "length (global_best_position s') = nat (NUM_DIMENSIONS cfg)"
    using gp lg wf' by (auto simp: particle_wf_def in_bounds_def)
  from s' inv wf' lg' h show ?thesis by (auto simp: state_wf_def)
qed

lemma init_state_wf:
  assumes "X_MIN cfg \<le> X_MAX cfg" and "\<forall>k i. 0 \<le> irnd k i \<and> irnd k i \<le> 1"
    and "init_state cfg irnd = Inr s0"
  shows "state_wf cfg s0"
    and "\<forall>p\<in>set (swarm s0). velocity p = replicate (nat (NUM_DIMENSIONS cfg)) 0
            \<and> best_position p = position p"
proof -
  note i = init_state_Inr[OF assms(3)]
  have each: "particle_wf cfg p \<and> velocity p = replicate (nat (NUM_DIMENSIONS cfg)) 0
            \<and> best_position p = position p" if "p \<in> set (swarm s0)" for p
  proof -
    from that obtain k where k: "k < length (swarm s0)" "swarm s0 ! k = p"
      by (auto simp: in_set_conv_nth)
    with i(7) have "Particle_init cfg (irnd k) = Inr p" by auto
    from Particle_init_wf[OF assms(1) _ this] assms(2) show ?thesis by simp
  qed
  then show "\<forall>p\<in>set (swarm s0). velocity p = replicate (nat (NUM_DIMENSIONS cfg)) 0
            \<and> best_position p = position p" by blast
  from i(8) each have "length (global_best_position s0) = nat (NUM_DIMENSIONS cfg)"
    by (auto simp: particle_wf_def in_bounds_def)
  with i(1) each show "state_wf cfg s0" by (simp add: state_wf_def)
qed

lemma particle_wf_in_range:
  assumes "X_MIN cfg = 0" and "X_MAX cfg = pi" and "0 \<le> NUM_DIMENSIONS cfg"
    and "particle_wf cfg p"
  shows "in_range cfg (best_value p)"
proof -
  from assms(1,2,4) have b: "\<forall>x\<in>set (best_position p). 0 \<le> x \<and> x \<le> pi"
    and l: "length (best_position p) = nat (NUM_DIMENSIONS cfg)"
    and v: "best_value p = michalewicz (best_position p)"
    by (simp_all add: particle_wf_def in_bounds_def)
  from michalewicz_bounds[OF b] l v assms(3) show ?thesis
    by (simp add: in_range_def)
qed

lemma state_wf_in_range:
  assumes "X_MIN cfg = 0" and "X_MAX cfg = pi" and "0 \<le> NUM_DIMENSIONS cfg"
    and "state_wf cfg s"
  shows "\<forall>p\<in>set (swarm s). in_range cfg (best_value p)"
    and "in_range cfg (global_best_value s)"
proof -
  show a: "\<forall>p\<in>set (swarm s). in_range cfg (best_value p)"
    using assms(4) particle_wf_in_range[OF assms(1,2,3)] by (simp add: state_wf_def)
  from assms(4) have ne: "swarm s \<noteq> []"
    and g: "global_best_value s = Min (best_values (swarm s))"
    by (simp_all add: state_wf_def swarm_inv_def)
  from ne have "Min (best_values (swarm s)) \<in> best_values (swarm s)"
    by (intro Min_in) (simp_all add: best_values_def)
  with a g show "in_range cfg (global_best_value s)" by (auto simp: best_values_def)
qed

lemma range_inv_step:
  assumes "X_MIN cfg = 0" and "X_MAX cfg = pi" and "0 \<le> NUM_DIMENSIONS cfg"
    and "range_inv cfg s"
  shows "\<exists>s'. loop_body cfg rnd s = Inr s' \<and> range_inv cfg s'"
proof -
  have le: "X_MIN cfg \<le> X_MAX cfg" using assms(1,2) by simp
  from assms(4) have wf: "state_wf cfg s"
    and h: "\<forall>v\<in>set (best_values_history s). in_range cfg v"
    by (simp_all add: range_inv_def)
  from state_wf_step[OF le wf, of rnd] obtain s' where
    s': "loop_body cfg rnd s = Inr s'" and wf': "state_wf cfg s'"
    and h': "best_values_history s' = best_values_history s @ [global_best_value s']"
    by blast
  from state_wf_in_range(2)[OF assms(1,2,3) wf'] h h'
  have "\<forall>v\<in>set (best_values_history s'). in_range cfg v" by simp
  with s' wf' show ?thesis by (auto simp: range_inv_def)
qed

lemma init_state_dimension:
  assumes "init_state cfg irnd = Inr s0"
  shows "0 \<le> NUM_DIMENSIONS cfg"
proof -
  note i = init_state_Inr[OF assms]
  from i(1) have "swarm s0 \<noteq> []" by (simp add: swarm_inv_def)
  then have "0 < length (swarm s0)" by simp
  with i(7) have "Particle_init cfg (irnd 0) = Inr (swarm s0 ! 0)" by blast
  then show ?thesis by (simp add: Particle_init_Inr_iff)
qed

text \<open>
  Claim C10. On vectors with every coordinate in \<open>[0, pi]\<close> the objective lies between
  minus the number of coordinates and 0. With the bounds \<open>0\<close> and \<open>pi\<close> of the
  source, every personal best value, the global best value and every entry of its
  history lie in \<open>[- NUM_DIMENSIONS, 0]\<close>, at the start and at the end of the loop.
\<close>

theorem run_values_in_range:
  assumes "X_MIN cfg = 0" and "X_MAX cfg = pi"
    and "\<forall>k i. 0 \<le> irnd k i \<and> irnd k i \<le> 1"
    and "init_state cfg irnd = Inr s0"
  shows "(\<forall>xs. (\<forall>x\<in>set xs. 0 \<le> x \<and> x \<le> pi)
            \<longrightarrow> - real (length xs) \<le> michalewicz xs \<and> michalewicz xs \<le> 0)
     \<and> (\<forall>p\<in>set (swarm s0). - real_of_int (NUM_DIMENSIONS cfg) \<le> best_value p
                                \<and> best_value p \<le> 0)
     \<and> - real_of_int (NUM_DIMENSIONS cfg) \<le> global_best_value s0
     \<and> global_best_value s0 \<le> 0
     \<and> (\<exists>s. pso_loop cfg rnd s0 = Inr s
          \<and> (\<forall>p\<in>set (swarm s). - real_of_int (NUM_DIMENSIONS cfg) \<le> best_value p
                                    \<and> best_value p \<le> 0)
          \<and> - real_of_int (NUM_DIMENSIONS cfg) \<le> global_best_value s
          \<and> global_best_value s \<le> 0
          \<and> (\<forall>v\<in>set (best_values_history s).
                 - real_of_int (NUM_DIMENSIONS cfg) \<le> v \<and> v \<le> 0))"
proof -
  have le: "X_MIN cfg \<le> X_MAX cfg" using assms(1,2) by simp
  have d: "0 \<le> NUM_DIMENSIONS cfg" by (rule init_state_dimension[OF assms(4)])
  have wf0: "state_wf cfg s0" by (rule init_state_wf(1)[OF le assms(3,4)])
  have h0: "best_values_history s0 = []" by (rule init_state_Inr(2)[OF assms(4)])
  have a: "\<forall>xs. (\<forall>x\<in>set xs. 0 \<le> x \<and> x \<le> pi)
            \<longrightarrow> - real (length xs) \<le> michalewicz xs \<and> michalewicz xs \<le> 0"
    using michalewicz_bounds by blast
  note r0 = state_wf_in_range[OF assms(1,2) d wf0]
  have i0: "range_inv cfg s0" using wf0 h0 by (simp add: range_inv_def)
  from pso_loop_invariant[of "range_inv cfg" cfg rnd s0,
         OF range_inv_step[OF assms(1,2) d] i0]
  obtain s where s: "pso_loop cfg rnd s0 = Inr s" and i: "range_inv cfg s" by blast
  from i have wf: "state_wf cfg s"
    and h: "\<forall>v\<in>set (best_values_history s). in_range cfg v"
    by (simp_all add: range_inv_def)
  note r = state_wf_in_range[OF assms(1,2) d wf]
  from a r0 s r h show ?thesis unfolding in_range_def by blast
qed

theorem run_values_in_range_witness:
  "X_MIN two_particle_config = 0 \<and> X_MAX two_particle_config = pi
   \<and> (\<forall>k i. 0 \<le> third_irnd k i \<and> third_irnd k i \<le> 1)
   \<and> init_state two_particle_config third_irnd = Inr pulled_state
   \<and> - 5 \<le> global_best_value pulled_state \<and> global_best_value pulled_state \<le> 0
   \<and> (\<exists>s. pso_loop two_particle_config pull_rnd pulled_state = Inr s
          \<and> - 5 \<le> global_best_value s \<and> global_best_value s \<le> 0)"
proof -
  have h1: "X_MIN two_particle_config = 0" and h2: "X_MAX two_particle_config = pi"
    and d: "real_of_int (NUM_DIMENSIONS two_particle_config) = 5"
    by (simp_all add: two_particle_config_def default_config_def)
  have h3: "\<forall>k i. 0 \<le> third_irnd k i \<and> third_irnd k i \<le> 1"
    by (simp add: third_irnd_def)
  from run_values_in_range[OF h1 h2 h3 init_pulled_state, of pull_rnd]
  have "- 5 \<le> global_best_value pulled_state \<and> global_best_value pulled_state \<le> 0
   \<and> (\<exists>s. pso_loop two_particle_config pull_rnd pulled_state = Inr s
          \<and> - 5 \<le> global_best_value s \<and> global_best_value s \<le> 0)"
    unfolding d by blast
  with h1 h2 h3 init_pulled_state show ?thesis by blast
qed

section \<open>Two scenarios: no iterations, and all coefficients zero\<close>

lemma update_velocity_zero:
  assumes "INERTIA_WEIGHT cfg = 0" and "COGNITIVE_CONST cfg = 0" and "SOCIAL_CONST cfg = 0"
    and "length (position p) = nat (NUM_DIMENSIONS cfg)"
    and "length (velocity p) = nat (NUM_DIMENSIONS cfg)"
    and "length (best_position p) = nat (NUM_DIMENSIONS cfg)"
    and "length g = nat (NUM_DIMENSIONS cfg)"
  shows "velocity (update_velocity cfg p g u1 u2) = replicate (nat (NUM_DIMENSIONS cfg)) 0"
proof (rule nth_equalityI)
  show "length (velocity (update_velocity cfg p g u1 u2))
        = length (replicate (nat (NUM_DIMENSIONS cfg)) (0::real))"
    using update_velocity_length[OF assms(4-7)] by simp
next
  fix i
  assume "i < length (velocity (update_velocity cfg p g u1 u2))"
  then have i: "i < nat (NUM_DIMENSIONS cfg)"
    using update_velocity_length[OF assms(4-7), of u1 u2] by simp
  then show "velocity (update_velocity cfg p g u1 u2) ! i
             = replicate (nat (NUM_DIMENSIONS cfg)) 0 ! i"
    using assms
    by (simp add: update_velocity_def Let_def nth_vadd nth_vsub nth_vmul nth_smul)
qed

lemma vadd_zero: "length a = n \<Longrightarrow> vadd a (replicate n 0) = a"
  by (rule nth_equalityI) (simp_all add: nth_vadd)

lemma update_particle_frozen:
  assumes "INERTIA_WEIGHT cfg = 0" and "COGNITIVE_CONST cfg = 0" and "SOCIAL_CONST cfg = 0"
    and "particle_wf cfg p" and "length g = nat (NUM_DIMENSIONS cfg)"
    and "velocity p = replicate (nat (NUM_DIMENSIONS cfg)) 0"
    and "best_position p = position p"
  shows "update_particle cfg g r p = p"
proof -
  let ?q = "update_velocity cfg p g (fst r) (snd r)"
  from assms(4) have lp: "length (position p) = nat (NUM_DIMENSIONS cfg)"
    and lb: "length (best_position p) = nat (NUM_DIMENSIONS cfg)"
    and lv: "length (velocity p) = nat (NUM_DIMENSIONS cfg)"
    and ib: "\<forall>x\<in>set (position p). X_MIN cfg \<le> x \<and> x \<le> X_MAX cfg"
    and bv: "best_value p = michalewicz (best_position p)"
    by (simp_all add: particle_wf_def in_bounds_def)
  have "velocity ?q = velocity p"
    unfolding assms(6) by (rule update_velocity_zero[OF assms(1-3) lp lv lb assms(5)])
  then have q: "?q = p" by (simp add: update_velocity_def Let_def)
  have "np_clip (vadd (position p) (velocity p)) (X_MIN cfg) (X_MAX cfg) = position p"
    unfolding assms(6) using vadd_zero[OF lp] np_clip_id[OF ib] by simp
  then have "update_position cfg p = p"
    using bv assms(7) by (simp add: update_position_def Let_def)
  with q show ?thesis by (simp add: update_particle_def)
qed

lemma step_particles_frozen:
  assumes "INERTIA_WEIGHT cfg = 0" and "COGNITIVE_CONST cfg = 0" and "SOCIAL_CONST cfg = 0"
    and "length g = nat (NUM_DIMENSIONS cfg)"
    and "\<forall>p\<in>set sw. particle_wf cfg p
           \<and> velocity p = replicate (nat (NUM_DIMENSIONS cfg)) 0
           \<and> best_position p = position p"
  shows "step_particles cfg g rnd k sw = sw"
  using assms(5)
proof (induction sw arbitrary: k)
  case Nil
  then show ?case by simp
next
  case (Cons p ps)
  then show ?case
    using update_particle_frozen[OF assms(1-3) _ assms(4), of p "rnd k"] by simp
qed

lemma frozen_inv_step:
  assumes "INERTIA_WEIGHT cfg = 0" and "COGNITIVE_CONST cfg = 0" and "SOCIAL_CONST cfg = 0"
    and "state_wf cfg s0"
    and "\<forall>p\<in>set (swarm s0). velocity p = replicate (nat (NUM_DIMENSIONS cfg)) 0
            \<and> best_position p = position p"
    and "frozen_inv s0 s"
  shows "\<exists>s'. loop_body cfg rnd s = Inr s' \<and> frozen_inv s0 s'"
proof -
  from assms(6) have sw: "swarm s = swarm s0" and gv: "global_best_value s = global_best_value s0"
    and gp: "global_best_position s = global_best_position s0"
    and h: "\<forall>v\<in>set (best_values_history s). v = global_best_value s0"
    by (simp_all add: frozen_inv_def)
  from assms(4) have ne: "swarm s0 \<noteq> []"
    and len: "length (swarm s0) = nat (NUM_PARTICLES cfg)"
    and g: "global_best_value s0 = Min (best_values (swarm s0))"
    and wf: "\<forall>p\<in>set (swarm s0). particle_wf cfg p"
    and lg: "length (global_best_position s0) = nat (NUM_DIMENSIONS cfg)"
    by (simp_all add: state_wf_def swarm_inv_def)
  have u: "swarm (update_swarm cfg rnd s) = swarm s0"
    unfolding update_swarm_def sw gp
    using step_particles_frozen[OF assms(1-3) lg, of "swarm s0"] wf assms(5) by simp
  have ne': "swarm s \<noteq> []" and len': "length (swarm s) = nat (NUM_PARTICLES cfg)"
    using ne len sw by simp_all
  from loop_body_result[OF ne' len', of rnd] obtain s' where
    s': "loop_body cfg rnd s = Inr s'"
    and sw': "swarm s' = swarm (update_swarm cfg rnd s)"
    and gv': "global_best_value s' = min (global_best_value s) (Min (best_values (swarm s')))"
    and gp': "global_best_value s' = global_best_value s
          \<longrightarrow> global_best_position s' = global_best_position s"
    and h': "best_values_history s' = best_values_history s @ [global_best_value s']"
    by blast
  have v: "global_best_value s' = global_best_value s0"
    using gv' by (simp add: sw' u gv g)
  with gp' gv gp have p: "global_best_position s' = global_best_position s0" by simp
  from s' sw' u v p h h' show ?thesis by (auto simp: frozen_inv_def)
qed

text \<open>
  Claim C9. With inertia weight, cognitive and social constant all 0, every velocity
  update yields the zero vector, and in a swarm made by the initialisation no particle
  ever changes: at the end of the loop the swarm is the initial one (so every position
  is the initial one and every velocity is the zero vector), and the global best value
  and every entry of its history are the initial global best value.
\<close>

theorem zero_coefficients_freeze:
  assumes "INERTIA_WEIGHT cfg = 0" and "COGNITIVE_CONST cfg = 0" and "SOCIAL_CONST cfg = 0"
    and "X_MIN cfg \<le> X_MAX cfg"
    and "\<forall>k i. 0 \<le> irnd k i \<and> irnd k i \<le> 1"
    and "init_state cfg irnd = Inr s0"
  shows "(\<forall>p g u1 u2.
            length (position p) = nat (NUM_DIMENSIONS cfg)
            \<and> length (velocity p) = nat (NUM_DIMENSIONS cfg)
            \<and> length (best_position p) = nat (NUM_DIMENSIONS cfg)
            \<and> length g = nat (NUM_DIMENSIONS cfg)
            \<longrightarrow> velocity (update_velocity cfg p g u1 u2)
                  = replicate (nat (NUM_DIMENSIONS cfg)) 0)
     \<and> (\<forall>p\<in>set (swarm s0). \<forall>g r. length g = nat (NUM_DIMENSIONS cfg)
            \<longrightarrow> update_particle cfg g r p = p)
     \<and> (\<exists>s. pso_loop cfg rnd s0 = Inr s
          \<and> swarm s = swarm s0
          \<and> map position (swarm s) = map position (swarm s0)
          \<and> (\<forall>p\<in>set (swarm s). velocity p = replicate (nat (NUM_DIMENSIONS cfg)) 0)
          \<and> global_best_value s = global_best_value s0
          \<and> global_best_position s = global_best_position s0
          \<and> (\<forall>v\<in>set (best_values_history s). v = global_best_value s0))"
proof -
  have wf0: "state_wf cfg s0"
    and z0: "\<forall>p\<in>set (swarm s0). velocity p = replicate (nat (NUM_DIMENSIONS cfg)) 0
            \<and> best_position p = position p"
    using init_state_wf[OF assms(4-6)] by simp_all
  have h0: "best_values_history s0 = []" by (rule init_state_Inr(2)[OF assms(6)])
  have a: "\<forall>p g u1 u2.
            length (position p) = nat (NUM_DIMENSIONS cfg)
            \<and> length (velocity p) = nat (NUM_DIMENSIONS cfg)
            \<and> length (best_position p) = nat (NUM_DIMENSIONS cfg)
            \<and> length g = nat (NUM_DIMENSIONS cfg)
            \<longrightarrow> velocity (update_velocity cfg p g u1 u2)
                  = replicate (nat (NUM_DIMENSIONS cfg)) 0"
    using update_velocity_zero[OF assms(1-3)] by blast
  have b: "\<forall>p\<in>set (swarm s0). \<forall>g r. length g = nat (NUM_DIMENSIONS cfg)
            \<longrightarrow> update_particle cfg g r p = p"
    using update_particle_frozen[OF assms(1-3)] wf0 z0 by (simp add: state_wf_def)
  have f0: "frozen_inv s0 s0" using h0 by (simp add: frozen_inv_def)
  from pso_loop_invariant[of "frozen_inv s0" cfg rnd s0,
         OF frozen_inv_step[OF assms(1-3) wf0 z0] f0]
  obtain s where s: "pso_loop cfg rnd s0 = Inr s" and f: "frozen_inv s0 s" by blast
  from f z0 have c: "swarm s = swarm s0
          \<and> map position (swarm s) = map position (swarm s0)
          \<and> (\<forall>p\<in>set (swarm s). velocity p = replicate (nat (NUM_DIMENSIONS cfg)) 0)
          \<and> global_best_value s = global_best_value s0
          \<and> global_best_position s = global_best_position s0
          \<and> (\<forall>v\<in>set (best_values_history s). v = global_best_value s0)"
    by (simp add: frozen_inv_def)
  from a b s c show ?thesis by blast
qed

lemma Particle_init_frozen_config:
  "Particle_init frozen_config u = Particle_init two_particle_config u"
  by (simp add: Particle_init_def frozen_config_def Let_def)

lemma init_particles_frozen_config:
  "init_particles frozen_config irnd ks = init_particles two_particle_config irnd ks"
  by (induction ks) (simp_all add: Particle_init_frozen_config split: sum.splits)

lemma init_frozen_state: "init_state frozen_config third_irnd = Inr pulled_state"
proof -
  have "init_state frozen_config third_irnd = init_state two_particle_config third_irnd"
    by (simp add: init_state_def init_particles_frozen_config) (simp add: frozen_config_def)
  then show ?thesis by (simp add: init_pulled_state)
qed

theorem zero_coefficients_freeze_witness:
  "INERTIA_WEIGHT frozen_config = 0 \<and> COGNITIVE_CONST frozen_config = 0
   \<and> SOCIAL_CONST frozen_config = 0 \<and> X_MIN frozen_config \<le> X_MAX frozen_config
   \<and> (\<forall>k i. 0 \<le> third_irnd k i \<and> third_irnd k i \<le> 1)
   \<and> init_state frozen_config third_irnd = Inr pulled_state
   \<and> (\<exists>s. pso_loop frozen_config pull_rnd pulled_state = Inr s
          \<and> swarm s = swarm pulled_state
          \<and> global_best_value s = global_best_value pulled_state)"
proof -
  have h1: "INERTIA_WEIGHT frozen_config = 0" and h2: "COGNITIVE_CONST frozen_config = 0"
    and h3: "SOCIAL_CONST frozen_config = 0"
    and h4: "X_MIN frozen_config \<le> X_MAX frozen_config"
    by (simp_all add: frozen_config_def two_particle_config_def default_config_def)
  have h5: "\<forall>k i. 0 \<le> third_irnd k i \<and> third_irnd k i \<le> 1"
    by (simp add: third_irnd_def)
  from zero_coefficients_freeze[OF h1 h2 h3 h4 h5 init_frozen_state, of pull_rnd]
  have "\<exists>s. pso_loop frozen_config pull_rnd pulled_state = Inr s
          \<and> swarm s = swarm pulled_state
          \<and> global_best_value s = global_best_value pulled_state"
    by blast
  with h1 h2 h3 h4 h5 init_frozen_state show ?thesis by blast
qed

lemma init_zero_iterations:
  "\<exists>s0. init_state zero_iterations_config third_irnd = Inr s0"
proof (rule init_state_total)
  show "0 < NUM_PARTICLES zero_iterations_config"
    by (simp add: zero_iterations_config_def default_config_def)
  show "\<forall>k < nat (NUM_PARTICLES zero_iterations_config).
          \<exists>p. Particle_init zero_iterations_config (third_irnd k) = Inr p"
  proof (intro allI impI)
    fix k
    let ?pos = "uniform 0 pi 5 (third_irnd k)"
    have "\<forall>i < 5. 0 \<le> third_irnd k i \<and> third_irnd k i \<le> 1"
      by (simp add: third_irnd_def)
    then have "\<forall>x\<in>set ?pos. 0 \<le> x \<and> x \<le> pi"
      using uniform_range[of 0 pi 5 "third_irnd k"] by simp
    then have "\<forall>x\<in>set ?pos. \<bar>x\<bar> \<le> 4" using pi_less_4 by fastforce
    then have "\<not> michalewicz_raises 0 ?pos" by (rule michalewicz_no_raise_5) simp
    with pi_range_ok
    show "\<exists>p. Particle_init zero_iterations_config (third_irnd k) = Inr p"
      by (simp add: Particle_init_Inr_iff zero_iterations_config_def default_config_def)
  qed
qed

text \<open>
  Claim C8. With \<open>MAX_ITERATIONS = 0\<close> the loop makes no step: it ends at once in the
  initial state, with the iteration budget used up and not converged, with empty
  histories, and the global best it leaves is the one of the initial swarm: its value
  is the least of the initial personal bests and its position the best position of a
  particle that has this value.
\<close>

theorem zero_iterations_no_step:
  assumes "MAX_ITERATIONS cfg \<le> 0" and "init_state cfg irnd = Inr s0"
  shows "pso_loop cfg rnd s0 = Inr s0
     \<and> \<not> int (iterations s0) < MAX_ITERATIONS cfg \<and> \<not> global_min_found s0
     \<and> iterations s0 = 0
     \<and> best_values_history s0 = [] \<and> avg_values_history s0 = []
     \<and> diversity_history s0 = []
     \<and> global_best_value s0 = Min (best_value ` set (swarm s0))
     \<and> (\<exists>p\<in>set (swarm s0). global_best_position s0 = best_position p
            \<and> global_best_value s0 = best_value p)"
proof -
  note i = init_state_Inr[OF assms(2)]
  have e: "\<not> int (iterations s0) < MAX_ITERATIONS cfg" using assms(1) i(5) by simp
  then have l: "pso_loop cfg rnd s0 = Inr s0" by (subst pso_loop.simps) simp
  have g: "global_best_value s0 = Min (best_value ` set (swarm s0))"
    using i(1) by (simp add: swarm_inv_def best_values_def)
  from l e i(2-6) g i(8) show ?thesis by blast
qed

theorem zero_iterations_no_step_witness:
  "MAX_ITERATIONS zero_iterations_config \<le> 0
   \<and> (\<exists>s0. init_state zero_iterations_config third_irnd = Inr s0
          \<and> pso_loop zero_iterations_config pull_rnd s0 = Inr s0
          \<and> best_values_history s0 = []
          \<and> global_best_value s0 = Min (best_value ` set (swarm s0)))"
proof -
  have h: "MAX_ITERATIONS zero_iterations_config \<le> 0"
    by (simp add: zero_iterations_config_def default_config_def)
  from init_zero_iterations obtain s0 where
    s0: "init_state zero_iterations_config third_irnd = Inr s0" by blast
  from zero_iterations_no_step[OF h s0, of pull_rnd] h s0 show ?thesis by blast
qed

text \<open>
  After the loop \<^verbatim>\<open>pso\<close> prints the global best and then builds the record for the
  CSV file from the last entries of the histories. When no iteration has run there are
  none, and \<^verbatim>\<open>avg_values_history[-1]\<close> raises.
\<close>

lemma make_results_empty_history:
  "avg_values_history s = [] \<Longrightarrow> make_results cfg s = Inl IndexError"
  by (simp add: make_results_def py_last_def)

end
